theory Spec2Isabelle
  imports Complex_Main "HOL-Library.Sublist"
begin

section \<open>Python values used by evolve.py\<close>

text \<open>
  Exceptions are values.  Every \<open>raise\<close> of the interpreter that the code of
  \<open>evolve.py\<close> can reach is one constructor.
\<close>

datatype error =
    NameError string
  | KeyError string
  | IndexError
  | ValueError
  | FileNotFoundError
  | IsADirectoryError

subsection \<open>\<open>str.split(sep)\<close>\<close>

text \<open>
  \<open>s.split(sep)\<close> with a non-empty separator scans \<open>s\<close> from the left and cuts at
  every occurrence of \<open>sep\<close> that does not overlap an earlier one.  The result always
  has at least one piece.  Both call sites of the source pass a constant, non-empty
  separator (\<open>'COMBINED'\<close> and \<open>','\<close>); with an empty separator Python raises, and
  the function below is only used with the two constants.
\<close>

function split_py :: "string \<Rightarrow> string \<Rightarrow> string list" where
  "split_py sep [] = [[]]"
| "split_py sep (c # cs) =
     (if sep \<noteq> [] \<and> prefix sep (c # cs)
      then [] # split_py sep (drop (length sep) (c # cs))
      else (case split_py sep cs of
              p # ps \<Rightarrow> (c # p) # ps
            | [] \<Rightarrow> [[c]]))"
  by pat_completeness auto
termination
  by (relation "measure (\<lambda>(sep, s). length s)") auto

text \<open>\<open>sep.join(pieces)\<close>, the inverse used to describe a report by its pieces.\<close>

fun join_py :: "string \<Rightarrow> string list \<Rightarrow> string" where
  "join_py sep [] = []"
| "join_py sep [p] = p"
| "join_py sep (p # q # ps) = p @ sep @ join_py sep (q # ps)"

subsection \<open>The pattern \<open>[-+]?(?:\d*\.*\d+)\<close>\<close>

text \<open>
  The pattern of line 160 is a sequence of four quantified character classes.  All
  quantifiers are greedy.  A backtracking matcher tries, for each item, the longest
  repetition first and gives characters back one at a time until the rest of the
  pattern matches, exactly as \<open>re\<close> does.  A character is a code point below 256;
  among these the decimal digits \<open>\d\<close> matches are the ASCII digits.
\<close>

datatype quant = Optional | Star | Plus

type_synonym item = "(char \<Rightarrow> bool) \<times> quant"

definition isdigit :: "char \<Rightarrow> bool" where
  "isdigit c = (c \<in> set ''0123456789'')"

definition issign :: "char \<Rightarrow> bool" where
  "issign c = (c \<in> set ''-+'')"

definition isdot :: "char \<Rightarrow> bool" where
  "isdot c = (c = CHR ''.'')"

definition number_pattern :: "item list" where
  "number_pattern = [(issign, Optional), (isdigit, Star), (isdot, Star), (isdigit, Plus)]"

text \<open>\<open>try_down f lo k\<close> tries the repetition counts \<open>k, k - 1, \<dots>, lo\<close> in this order.\<close>

fun try_down :: "(nat \<Rightarrow> 'a option) \<Rightarrow> nat \<Rightarrow> nat \<Rightarrow> 'a option" where
  "try_down f lo 0 = (if lo = 0 then f 0 else None)"
| "try_down f lo (Suc k) =
     (if Suc k < lo then None
      else (case f (Suc k) of
              Some r \<Rightarrow> Some r
            | None \<Rightarrow> try_down f lo k))"

definition max_rep :: "quant \<Rightarrow> nat \<Rightarrow> nat" where
  "max_rep q n = (case q of Optional \<Rightarrow> min 1 n | Star \<Rightarrow> n | Plus \<Rightarrow> n)"

definition min_rep :: "quant \<Rightarrow> nat" where
  "min_rep q = (case q of Optional \<Rightarrow> 0 | Star \<Rightarrow> 0 | Plus \<Rightarrow> 1)"

text \<open>\<open>match_here items s\<close>: the text the pattern matches at the start of \<open>s\<close>, if any.\<close>

fun match_here :: "item list \<Rightarrow> string \<Rightarrow> string option" where
  "match_here [] s = Some []"
| "match_here ((cls, q) # items) s =
     try_down
       (\<lambda>k. map_option (\<lambda>t. take k s @ t) (match_here items (drop k s)))
       (min_rep q)
       (max_rep q (length (takeWhile cls s)))"

text \<open>
  \<open>re.findall(pattern, s)[0]\<close>: the match at the leftmost position where the pattern
  matches.  The pattern has no capturing group, so \<open>findall\<close> returns whole matches; it
  cannot match the empty string, so the first element of \<open>findall\<close> is the first
  match of a left-to-right search.  With no match the list is empty and \<open>[0]\<close> raises
  \<open>IndexError\<close>.
\<close>

fun search :: "item list \<Rightarrow> string \<Rightarrow> string option" where
  "search items [] = match_here items []"
| "search items (c # cs) =
     (case match_here items (c # cs) of
        Some t \<Rightarrow> Some t
      | None \<Rightarrow> search items cs)"

definition findall_first :: "string \<Rightarrow> error + string" where
  "findall_first s = (case search number_pattern s of None \<Rightarrow> Inl IndexError | Some t \<Rightarrow> Inr t)"

subsection \<open>\<open>float(token)\<close> and \<open>int(token)\<close>\<close>

text \<open>
  A float is modelled by the real number its decimal text denotes; the rounding to a
  binary64 value is not modelled.  A token of the pattern holds only a sign, digits and
  dots, so the other spellings \<open>float\<close> accepts (exponents, \<open>inf\<close>, \<open>nan\<close>,
  underscores, surrounding blanks) cannot reach this function.  \<open>float\<close> raises
  \<open>ValueError\<close> on a text with two dots or with no digit.
\<close>

definition digit_val :: "char \<Rightarrow> nat" where
  "digit_val c = of_char c - 48"

definition digits_val :: "string \<Rightarrow> nat" where
  "digits_val ds = foldl (\<lambda>a c. 10 * a + digit_val c) 0 ds"

definition unsigned_float :: "string \<Rightarrow> error + real" where
  "unsigned_float body =
     (let ip = takeWhile isdigit body; rest = dropWhile isdigit body in
      case rest of
        [] \<Rightarrow> (if ip = [] then Inl ValueError else Inr (real (digits_val ip)))
      | c # fp \<Rightarrow>
          (if c = CHR ''.'' \<and> list_all isdigit fp \<and> (ip \<noteq> [] \<or> fp \<noteq> [])
           then Inr (real (digits_val ip) + real (digits_val fp) / 10 ^ length fp)
           else Inl ValueError))"

definition float_py :: "string \<Rightarrow> error + real" where
  "float_py s =
     (case s of
        [] \<Rightarrow> Inl ValueError
      | c # cs \<Rightarrow>
          (if c = CHR ''-'' then map_sum id uminus (unsigned_float cs)
           else if c = CHR ''+'' then unsigned_float cs
           else unsigned_float (c # cs)))"






section \<open>The data model\<close>

text \<open>A sampled parameter value, and a flat mapping from parameter names to values
  (a Python \<open>dict\<close>, kept in insertion order).\<close>

datatype pval = PFloat real | PInt int | PBool bool | PStr string

type_synonym pdict = "(string \<times> pval) list"

text \<open>The document \<open>yaml.dump\<close> receives: \<open>{tracker: {parameter: value}}\<close>, or \<open>{}\<close>.\<close>

type_synonym ydoc = "(string \<times> pdict) list"

text \<open>The three kinds of request a trial answers.\<close>

datatype rule =
    FloatRange real real
  | IntRange int int int
  | Categorical "pval list"

text \<open>
  The optimizer is a collaborator: what \<open>trial.suggest_float\<close>, \<open>trial.suggest_int\<close>
  and \<open>trial.suggest_categorical\<close> answer is its choice.  A sampler is the three
  answers as functions of the request.
\<close>

record sampler =
  sug_float :: "string \<Rightarrow> real \<Rightarrow> real \<Rightarrow> real"
  sug_int :: "string \<Rightarrow> int \<Rightarrow> int \<Rightarrow> int \<Rightarrow> int"
  sug_cat :: "string \<Rightarrow> pval list \<Rightarrow> pval"

text \<open>A trial: its number, the parameters it has answered so far (\<open>trial.params\<close>, in
  the order of the requests; no branch asks for a name twice), and its scores once it
  has been evaluated (\<open>trial.values\<close>).\<close>

record trial =
  number :: nat
  params :: pdict
  trial_values :: "real list"

datatype direction = Maximize | Minimize

record study =
  directions :: "direction list"
  trials :: "trial list"

type_synonym path = "string list"

datatype dev = DevInt int | DevStr string

text \<open>
  The parsed options, with the attributes this file reads or writes.  \<open>track_thres\<close>
  is not an option of the parser: it is an attribute the bytetrack branch creates, so
  it is absent (\<open>None\<close>) until then.
\<close>

record opts =
  tracking_method :: string
  tracking_config :: path
  conf_thres :: real
  track_thres :: "real option"
  device :: "dev list"
  n_trials :: int
  resume :: bool

text \<open>What a file holds.  The text of a YAML dump, of a pickle and of a plot is not
  modelled, only what it was made from.\<close>

datatype comment = TrialNumber nat | Scores "real list"

datatype plot =
    ParetoFront study "string list"
  | ParamImportances study nat string

datatype file_content =
    Yaml "comment list" ydoc
  | Pickle study
  | Html plot

text \<open>
  The state of the process: the option objects by address (an \<open>Objective\<close> holds a
  reference, and \<open>get_new_config\<close> writes through it), the module-level name
  \<open>opt\<close> (unbound when \<open>None\<close>), the files, and the directories that exist.  Paths
  are lists of components relative to the working directory, which always exists.
\<close>

record state =
  heap :: "nat \<Rightarrow> opts"
  glob_opt :: "nat option"
  files :: "path \<rightharpoonup> file_content"
  dirs :: "path set"

text \<open>A computation returns a value or raises, and leaves a state behind either way.\<close>

type_synonym 'a result = "(error + 'a) \<times> state"

definition bind :: "'a result \<Rightarrow> ('a \<Rightarrow> state \<Rightarrow> 'b result) \<Rightarrow> 'b result" where
  "bind r f = (case r of (Inl e, st) \<Rightarrow> (Inl e, st) | (Inr a, st) \<Rightarrow> f a st)"

text \<open>\<open>open(p, 'w')\<close> followed by the writes of the \<open>with\<close> block: the file is
  replaced, and opening fails when the directory of \<open>p\<close> does not exist.\<close>

definition open_w :: "path \<Rightarrow> file_content \<Rightarrow> state \<Rightarrow> unit result" where
  "open_w p content st =
     (if butlast p = [] \<or> butlast p \<in> dirs st
      then (Inr (), st\<lparr>files := (files st)(p \<mapsto> content)\<rparr>)
      else (Inl FileNotFoundError, st))"

text \<open>
  A file name given as a string, as \<open>joblib.dump\<close> and \<open>write_html\<close> receive it, is
  resolved component by component.  A name that starts with \<open>/\<close> starts at the root,
  written as the component \<open>/\<close>, and any other name at the working directory.  An
  empty component and \<open>.\<close> stay where they are, \<open>..\<close> goes up, and any other
  component before the last must be a directory that exists.  The last component is the
  file; it must not be a directory.  Links, and a file standing where a directory is
  needed, are outside this model.
\<close>

definition up :: "path \<Rightarrow> path" where
  "up cur =
     (if cur = [''/''] then cur
      else if cur = [] \<or> last cur = ''..'' then cur @ [''..'']
      else butlast cur)"

fun walk :: "path set \<Rightarrow> path \<Rightarrow> string list \<Rightarrow> error + path" where
  "walk ds cur [] = Inl IsADirectoryError"
| "walk ds cur [c] =
     (if c = [] \<or> c = ''.'' \<or> c = ''..'' \<or> cur @ [c] \<in> ds then Inl IsADirectoryError
      else Inr (cur @ [c]))"
| "walk ds cur (c # d # cs) =
     (if c = [] \<or> c = ''.'' then walk ds cur (d # cs)
      else if c = ''..'' then walk ds (up cur) (d # cs)
      else if cur @ [c] \<in> ds then walk ds (cur @ [c]) (d # cs)
      else Inl FileNotFoundError)"

definition resolve :: "path set \<Rightarrow> string \<Rightarrow> error + path" where
  "resolve ds name =
     (if name = [] then Inl FileNotFoundError
      else walk ds (if hd name = CHR ''/'' then [''/''] else []) (split_py ''/'' name))"

text \<open>Opening the file of that name for writing, and writing it.\<close>

definition open_name :: "string \<Rightarrow> file_content \<Rightarrow> state \<Rightarrow> unit result" where
  "open_name name content st =
     (case resolve (dirs st) name of
        Inl e \<Rightarrow> (Inl e, st)
      | Inr p \<Rightarrow> (Inr (), st\<lparr>files := (files st)(p \<mapsto> content)\<rparr>))"

section \<open>\<open>Objective\<close>\<close>

text \<open>\<open>Objective(opts)\<close> keeps a reference to the options object.\<close>

datatype objective = Objective (self_opt: nat)

definition suggest_float :: "sampler \<Rightarrow> string \<Rightarrow> real \<Rightarrow> real \<Rightarrow> trial \<Rightarrow> real \<times> trial" where
  "suggest_float sm name lo hi t =
     (let v = sug_float sm name lo hi in (v, params_update (\<lambda>ps. ps @ [(name, PFloat v)]) t))"

definition suggest_int :: "sampler \<Rightarrow> string \<Rightarrow> int \<Rightarrow> int \<Rightarrow> int \<Rightarrow> trial \<Rightarrow> int \<times> trial" where
  "suggest_int sm name lo hi step t =
     (let v = sug_int sm name lo hi step in (v, params_update (\<lambda>ps. ps @ [(name, PInt v)]) t))"

definition suggest_categorical :: "sampler \<Rightarrow> string \<Rightarrow> pval list \<Rightarrow> trial \<Rightarrow> pval \<times> trial" where
  "suggest_categorical sm name choices t =
     (let v = sug_cat sm name choices in (v, params_update (\<lambda>ps. ps @ [(name, v)]) t))"

definition set_conf_thres :: "nat \<Rightarrow> real \<Rightarrow> state \<Rightarrow> state" where
  "set_conf_thres a v st = st\<lparr>heap := (heap st)(a := (heap st a)\<lparr>conf_thres := v\<rparr>)\<rparr>"

definition set_track_thres :: "nat \<Rightarrow> real \<Rightarrow> state \<Rightarrow> state" where
  "set_track_thres a v st = st\<lparr>heap := (heap st)(a := (heap st a)\<lparr>track_thres := Some v\<rparr>)\<rparr>"

text \<open>Lines 72 to 140.  The three branches draw in the order of the source; the
  last two lines write \<open>d\<close> to \<open>self.opt.tracking_config\<close>.\<close>

definition get_new_config :: "sampler \<Rightarrow> objective \<Rightarrow> trial \<Rightarrow> state \<Rightarrow> trial result" where
  "get_new_config sm self trial st =
     (let a = self_opt self in
      if tracking_method (heap st a) = ''strongsort'' then
        (let (conf, trial) = suggest_float sm ''conf_thres'' 0.35 0.55 trial;
             st = set_conf_thres a conf st;
             (iou_thresh, trial) = suggest_float sm ''iou_thresh'' 0.1 0.4 trial;
             (ecc, trial) = suggest_categorical sm ''ecc'' [PBool True, PBool False] trial;
             (ema_alpha, trial) = suggest_float sm ''ema_alpha'' 0.7 0.95 trial;
             (max_dist, trial) = suggest_float sm ''max_dist'' 0.1 0.4 trial;
             (max_iou_dist, trial) = suggest_float sm ''max_iou_dist'' 0.5 0.9 trial;
             (max_age, trial) = suggest_int sm ''max_age'' 10 200 10 trial;
             (n_init, trial) = suggest_int sm ''n_init'' 1 3 1 trial;
             (mc_lambda, trial) = suggest_categorical sm ''mc_lambda'' [PFloat 0.995] trial;
             (nn_budget, trial) = suggest_categorical sm ''nn_budget'' [PInt 100] trial;
             (max_unmatched_preds, trial) =
                suggest_categorical sm ''max_unmatched_preds'' [PInt 0] trial;
             d = [(''strongsort'',
                   [(''ecc'', ecc),
                    (''mc_lambda'', mc_lambda),
                    (''ema_alpha'', PFloat ema_alpha),
                    (''max_dist'', PFloat max_dist),
                    (''max_iou_dist'', PFloat max_iou_dist),
                    (''max_unmatched_preds'', max_unmatched_preds),
                    (''max_age'', PInt max_age),
                    (''n_init'', PInt n_init),
                    (''nn_budget'', nn_budget)])]
         in bind (open_w (tracking_config (heap st a)) (Yaml [] d) st) (\<lambda>_ st. (Inr trial, st)))
      else if tracking_method (heap st a) = ''bytetrack'' then
        (let (thres, trial) = suggest_float sm ''track_thres'' 0.35 0.55 trial;
             st = set_track_thres a thres st;
             (track_buffer, trial) = suggest_int sm ''track_buffer'' 10 60 10 trial;
             (match_thresh, trial) = suggest_float sm ''match_thresh'' 0.7 0.9 trial;
             d = [(''bytetrack'',
                   [(''track_thresh'', PFloat (conf_thres (heap st a))),
                    (''match_thresh'', PFloat match_thresh),
                    (''track_buffer'', PInt track_buffer),
                    (''frame_rate'', PInt 30)])]
         in bind (open_w (tracking_config (heap st a)) (Yaml [] d) st) (\<lambda>_ st. (Inr trial, st)))
      else if tracking_method (heap st a) = ''ocsort'' then
        (let (conf, trial) = suggest_float sm ''det_thresh'' 0.35 0.55 trial;
             st = set_conf_thres a conf st;
             (max_age, trial) = suggest_int sm ''max_age'' 10 60 10 trial;
             (min_hits, trial) = suggest_int sm ''min_hits'' 1 5 1 trial;
             (iou_thresh, trial) = suggest_float sm ''iou_thresh'' 0.1 0.4 trial;
             (delta_t, trial) = suggest_int sm ''delta_t'' 1 5 1 trial;
             (asso_func, trial) = suggest_categorical sm ''asso_func'' [PStr ''iou'', PStr ''giou''] trial;
             (inertia, trial) = suggest_float sm ''inertia'' 0.1 0.4 trial;
             (use_byte, trial) = suggest_categorical sm ''use_byte'' [PBool True, PBool False] trial;
             d = [(''ocsort'',
                   [(''det_thresh'', PFloat (conf_thres (heap st a))),
                    (''max_age'', PInt max_age),
                    (''min_hits'', PInt min_hits),
                    (''iou_thresh'', PFloat iou_thresh),
                    (''delta_t'', PInt delta_t),
                    (''asso_func'', asso_func),
                    (''inertia'', PFloat inertia),
                    (''use_byte'', use_byte)])]
         in bind (open_w (tracking_config (heap st a)) (Yaml [] d) st) (\<lambda>_ st. (Inr trial, st)))
      else bind (open_w (tracking_config (heap st a)) (Yaml [] []) st) (\<lambda>_ st. (Inr trial, st)))"

subsection \<open>\<open>__call__\<close>: from the report to the three scores\<close>

text \<open>The slice \<open>xs[2:-1]\<close>: the elements from index 2 up to, not including, the last.\<close>

definition slice_2_m1 :: "'a list \<Rightarrow> 'a list" where
  "slice_2_m1 xs = butlast (drop 2 xs)"

text \<open>Line 160: the list comprehension stops at the first piece that raises.\<close>

fun first_floats :: "string list \<Rightarrow> error + real list" where
  "first_floats [] = Inr []"
| "first_floats (f # fs) =
     (case findall_first f of
        Inl e \<Rightarrow> Inl e
      | Inr tok \<Rightarrow>
          (case float_py tok of
             Inl e \<Rightarrow> Inl e
           | Inr v \<Rightarrow>
               (case first_floats fs of
                  Inl e \<Rightarrow> Inl e
                | Inr vs \<Rightarrow> Inr (v # vs))))"

definition dict_get :: "(string \<times> 'a) list \<Rightarrow> string \<Rightarrow> error + 'a" where
  "dict_get d k = (case map_of d k of None \<Rightarrow> Inl (KeyError k) | Some v \<Rightarrow> Inr v)"

text \<open>Lines 158 to 163, on the report \<open>results\<close>.\<close>

definition parse_report :: "string \<Rightarrow> error + real \<times> real \<times> real" where
  "parse_report results =
     (case first_floats (slice_2_m1 (split_py ''COMBINED'' results)) of
        Inl e \<Rightarrow> Inl e
      | Inr vs \<Rightarrow>
          (let combined_results = zip [''HOTA'', ''MOTA'', ''IDF1''] vs in
           case dict_get combined_results ''HOTA'' of
             Inl e \<Rightarrow> Inl e
           | Inr h \<Rightarrow>
               (case dict_get combined_results ''MOTA'' of
                  Inl e \<Rightarrow> Inl e
                | Inr m \<Rightarrow>
                    (case dict_get combined_results ''IDF1'' of
                       Inl e \<Rightarrow> Inl e
                     | Inr i \<Rightarrow> Inr (h, m, i)))))"

text \<open>
  \<open>self.run\<close> is the evaluation, a collaborator that is not part of this file.  It
  receives the options object it is called with and finds the configuration file the
  tracker reads in the file system; it returns the report.  It is a parameter: any
  function of the options and the files.  What the evaluation writes itself, and an
  exception of its own, are outside this model.

  Lines 154 to 163.  The name \<open>opt\<close> of line 156 is not a local and not an
  attribute: it is looked up among the module's globals when the line is reached.
\<close>

type_synonym evaluation = "opts \<Rightarrow> (path \<rightharpoonup> file_content) \<Rightarrow> string"

definition objective_call ::
  "evaluation \<Rightarrow> sampler \<Rightarrow> objective \<Rightarrow> trial \<Rightarrow> state \<Rightarrow> ((real \<times> real \<times> real) \<times> trial) result" where
  "objective_call run sm self trial st =
     bind (get_new_config sm self trial st) (\<lambda>trial st.
       case glob_opt st of
         None \<Rightarrow> (Inl (NameError ''opt''), st)
       | Some g \<Rightarrow>
           (case parse_report (run (heap st g) (files st)) of
              Inl e \<Rightarrow> (Inl e, st)
            | Inr v \<Rightarrow> (Inr (v, trial), st)))"

section \<open>The study\<close>

text \<open>
  \<open>study.optimize(objective, n_trials)\<close> belongs to the optimizer.  Its sequential
  loop asks for a new trial, numbered by the trials so far, calls the objective, and
  records the trial with its scores; an exception of the objective is not caught and
  ends the loop.  The sampler of each trial is the optimizer's choice from the trials
  recorded so far.
\<close>

type_synonym engine = "trial list \<Rightarrow> sampler"

fun optimize ::
  "evaluation \<Rightarrow> engine \<Rightarrow> objective \<Rightarrow> nat \<Rightarrow> study \<Rightarrow> state \<Rightarrow> study result" where
  "optimize run eng self 0 study st = (Inr study, st)"
| "optimize run eng self (Suc n) study st =
     bind (objective_call run (eng (trials study)) self
             \<lparr>number = length (trials study), params = [], trial_values = []\<rparr> st)
       (\<lambda>((h, m, i), trial) st.
          optimize run eng self n
            (study\<lparr>trials := trials study @ [trial\<lparr>trial_values := [h, m, i]\<rparr>]\<rparr>) st)"





section \<open>Reporting\<close>

text \<open>
  \<open>max(xs, key=k)\<close>: the keys are computed from left to right, a later element
  replaces the best one only when its key is strictly greater, and an empty list
  raises \<open>ValueError\<close>.
\<close>

fun max_loop :: "('a \<Rightarrow> error + real) \<Rightarrow> 'a \<Rightarrow> real \<Rightarrow> 'a list \<Rightarrow> error + 'a" where
  "max_loop key best bk [] = Inr best"
| "max_loop key best bk (x # xs) =
     (case key x of
        Inl e \<Rightarrow> Inl e
      | Inr k \<Rightarrow> (if bk < k then max_loop key x k xs else max_loop key best bk xs))"

definition max_key :: "('a \<Rightarrow> error + real) \<Rightarrow> 'a list \<Rightarrow> error + 'a" where
  "max_key key xs =
     (case xs of
        [] \<Rightarrow> Inl ValueError
      | x # xs' \<Rightarrow> (case key x of Inl e \<Rightarrow> Inl e | Inr k \<Rightarrow> max_loop key x k xs'))"

text \<open>\<open>lambda t: t.values[i]\<close>.\<close>

definition value_at :: "nat \<Rightarrow> trial \<Rightarrow> error + real" where
  "value_at i t = (if i < length (trial_values t) then Inr (trial_values t ! i) else Inl IndexError)"

text \<open>\<open>study.best_trials\<close> is the optimizer's search for the non-dominated trials; it
  is a parameter.\<close>

type_synonym front = "study \<Rightarrow> trial list"



text \<open>Lines 225 to 230.\<close>

definition write_best_HOTA_params_to_config :: "front \<Rightarrow> opts \<Rightarrow> study \<Rightarrow> state \<Rightarrow> unit result" where
  "write_best_HOTA_params_to_config best_trials opt study st =
     (case max_key (value_at 0) (best_trials study) of
        Inl e \<Rightarrow> (Inl e, st)
      | Inr trial_with_highest_HOTA \<Rightarrow>
          (let d = [(tracking_method opt, params trial_with_highest_HOTA)] in
           open_w (tracking_config opt)
             (Yaml [TrialNumber (number trial_with_highest_HOTA),
                    Scores (trial_values trial_with_highest_HOTA)] d) st))"

section \<open>The command line and the main program\<close>









section \<open>The parameter spaces\<close>

text \<open>
  The parameter space of a tracker, read off the \<open>suggest\<close> calls of its branch in
  the order of the source: the name of each parameter with its rule.  A tracker
  without a branch has none.
\<close>

definition declared_space :: "string \<Rightarrow> (string \<times> rule) list" where
  "declared_space m =
     (if m = ''strongsort'' then
        [(''conf_thres'', FloatRange 0.35 0.55),
         (''iou_thresh'', FloatRange 0.1 0.4),
         (''ecc'', Categorical [PBool True, PBool False]),
         (''ema_alpha'', FloatRange 0.7 0.95),
         (''max_dist'', FloatRange 0.1 0.4),
         (''max_iou_dist'', FloatRange 0.5 0.9),
         (''max_age'', IntRange 10 200 10),
         (''n_init'', IntRange 1 3 1),
         (''mc_lambda'', Categorical [PFloat 0.995]),
         (''nn_budget'', Categorical [PInt 100]),
         (''max_unmatched_preds'', Categorical [PInt 0])]
      else if m = ''bytetrack'' then
        [(''track_thres'', FloatRange 0.35 0.55),
         (''track_buffer'', IntRange 10 60 10),
         (''match_thresh'', FloatRange 0.7 0.9)]
      else if m = ''ocsort'' then
        [(''det_thresh'', FloatRange 0.35 0.55),
         (''max_age'', IntRange 10 60 10),
         (''min_hits'', IntRange 1 5 1),
         (''iou_thresh'', FloatRange 0.1 0.4),
         (''delta_t'', IntRange 1 5 1),
         (''asso_func'', Categorical [PStr ''iou'', PStr ''giou'']),
         (''inertia'', FloatRange 0.1 0.4),
         (''use_byte'', Categorical [PBool True, PBool False])]
      else [])"

text \<open>What the sampler answers to a request, and when an answer respects the rule:
  inside the range, on a step counted from the lower bound, or one of the choices.\<close>

definition drawn :: "sampler \<Rightarrow> string \<Rightarrow> rule \<Rightarrow> pval" where
  "drawn sm name r =
     (case r of
        FloatRange lo hi \<Rightarrow> PFloat (sug_float sm name lo hi)
      | IntRange lo hi step \<Rightarrow> PInt (sug_int sm name lo hi step)
      | Categorical choices \<Rightarrow> sug_cat sm name choices)"

definition admissible :: "rule \<Rightarrow> pval \<Rightarrow> bool" where
  "admissible r v =
     (case r of
        FloatRange lo hi \<Rightarrow> (case v of PFloat x \<Rightarrow> lo \<le> x \<and> x \<le> hi | _ \<Rightarrow> False)
      | IntRange lo hi step \<Rightarrow>
          (case v of PInt n \<Rightarrow> lo \<le> n \<and> n \<le> hi \<and> (n - lo) mod step = 0 | _ \<Rightarrow> False)
      | Categorical choices \<Rightarrow> v \<in> set choices)"

definition draws :: "sampler \<Rightarrow> string \<Rightarrow> pdict" where
  "draws sm m = map (\<lambda>(name, r). (name, drawn sm name r)) (declared_space m)"

text \<open>The keys of the written mapping that hold a drawn value, each with the name of
  the parameter it comes from.  The key \<open>track_thresh\<close> of bytetrack is not listed,
  and \<open>frame_rate\<close> is a constant.\<close>

definition persisted_from :: "string \<Rightarrow> (string \<times> string) list" where
  "persisted_from m =
     (if m = ''strongsort'' then
        map (\<lambda>k. (k, k))
          [''ecc'', ''mc_lambda'', ''ema_alpha'', ''max_dist'', ''max_iou_dist'',
           ''max_unmatched_preds'', ''max_age'', ''n_init'', ''nn_budget'']
      else if m = ''bytetrack'' then
        map (\<lambda>k. (k, k)) [''match_thresh'', ''track_buffer'']
      else if m = ''ocsort'' then
        map (\<lambda>k. (k, k))
          [''det_thresh'', ''max_age'', ''min_hits'', ''iou_thresh'', ''delta_t'',
           ''asso_func'', ''inertia'', ''use_byte'']
      else [])"

text \<open>The document \<open>d\<close> of \<open>get_new_config\<close> and the options object after the call,
  as functions of the sampler and of the options object before the call.\<close>

definition config_written :: "sampler \<Rightarrow> opts \<Rightarrow> ydoc" where
  "config_written sm opt =
     (if tracking_method opt = ''strongsort'' then
        [(''strongsort'',
          [(''ecc'', sug_cat sm ''ecc'' [PBool True, PBool False]),
           (''mc_lambda'', sug_cat sm ''mc_lambda'' [PFloat 0.995]),
           (''ema_alpha'', PFloat (sug_float sm ''ema_alpha'' 0.7 0.95)),
           (''max_dist'', PFloat (sug_float sm ''max_dist'' 0.1 0.4)),
           (''max_iou_dist'', PFloat (sug_float sm ''max_iou_dist'' 0.5 0.9)),
           (''max_unmatched_preds'', sug_cat sm ''max_unmatched_preds'' [PInt 0]),
           (''max_age'', PInt (sug_int sm ''max_age'' 10 200 10)),
           (''n_init'', PInt (sug_int sm ''n_init'' 1 3 1)),
           (''nn_budget'', sug_cat sm ''nn_budget'' [PInt 100])])]
      else if tracking_method opt = ''bytetrack'' then
        [(''bytetrack'',
          [(''track_thresh'', PFloat (conf_thres opt)),
           (''match_thresh'', PFloat (sug_float sm ''match_thresh'' 0.7 0.9)),
           (''track_buffer'', PInt (sug_int sm ''track_buffer'' 10 60 10)),
           (''frame_rate'', PInt 30)])]
      else if tracking_method opt = ''ocsort'' then
        [(''ocsort'',
          [(''det_thresh'', PFloat (sug_float sm ''det_thresh'' 0.35 0.55)),
           (''max_age'', PInt (sug_int sm ''max_age'' 10 60 10)),
           (''min_hits'', PInt (sug_int sm ''min_hits'' 1 5 1)),
           (''iou_thresh'', PFloat (sug_float sm ''iou_thresh'' 0.1 0.4)),
           (''delta_t'', PInt (sug_int sm ''delta_t'' 1 5 1)),
           (''asso_func'', sug_cat sm ''asso_func'' [PStr ''iou'', PStr ''giou'']),
           (''inertia'', PFloat (sug_float sm ''inertia'' 0.1 0.4)),
           (''use_byte'', sug_cat sm ''use_byte'' [PBool True, PBool False])])]
      else [])"

definition opts_after :: "sampler \<Rightarrow> opts \<Rightarrow> opts" where
  "opts_after sm opt =
     (if tracking_method opt = ''strongsort'' then
        opt\<lparr>conf_thres := sug_float sm ''conf_thres'' 0.35 0.55\<rparr>
      else if tracking_method opt = ''bytetrack'' then
        opt\<lparr>track_thres := Some (sug_float sm ''track_thres'' 0.35 0.55)\<rparr>
      else if tracking_method opt = ''ocsort'' then
        opt\<lparr>conf_thres := sug_float sm ''det_thresh'' 0.35 0.55\<rparr>
      else opt)"

section \<open>What a trial leaves unchanged\<close>


text \<open>The file name of a path, its last component, ends with \<open>suf\<close>.\<close>

definition ends_with :: "string \<Rightarrow> path \<Rightarrow> bool" where
  "ends_with suf k \<longleftrightarrow> k \<noteq> [] \<and> suffix suf (last k)"

section \<open>Example inputs\<close>

definition nl :: string where
  "nl = [CHR 0x0A]"

text \<open>The synthetic report of the specification: three marker lines with a number,
  then a last marker line.\<close>

definition spec_report :: string where
  "spec_report =
     ''...COMBINED... HOTA: 55.2 ...'' @ nl @
     ''...COMBINED... MOTA: 61.0 ...'' @ nl @
     ''...COMBINED... IDF1: 58.7 ...'' @ nl @
     ''...COMBINED...''"

text \<open>A report in the layout of the evaluation tool: the marker occurs once in the
  printed settings and once in the last row of each of the four result tables.  These
  are the pieces between the markers.\<close>

definition report_pieces :: "string list" where
  "report_pieces =
     [''PRINT_ONLY_'',
      '' : False'' @ nl @ ''HOTA: pedestrian'' @ nl,
      ''  55.2  60.1'' @ nl @ ''CLEAR: pedestrian'' @ nl,
      ''  61.0  80.5'' @ nl @ ''Identity: pedestrian'' @ nl,
      ''  58.7  70'' @ nl @ ''Count: pedestrian'' @ nl,
      ''  1000  20'' @ nl]"

text \<open>A report of a run that failed before any table was printed.\<close>

definition crash_report :: string where
  "crash_report = ''Traceback (most recent call last):'' @ nl @ ''RuntimeError: CUDA out of memory''"

text \<open>The pieces of a report with eight markers.\<close>

definition long_report_pieces :: "string list" where
  "long_report_pieces =
     [''PRINT_ONLY_'', '' : False'' @ nl,
      ''  55.2'' @ nl, ''  61.0'' @ nl, ''  58.7'' @ nl, ''  12'' @ nl, ''  -3.5'' @ nl,
      ''  1000'' @ nl]"



text \<open>Options, a state and a study for the examples.  The three trials do not
  dominate one another; the last two have the same first score.\<close>

definition example_opts :: opts where
  "example_opts =
     \<lparr>tracking_method = ''strongsort'',
      tracking_config = [''trackers'', ''strongsort'', ''configs'', ''strongsort.yaml''],
      conf_thres = 0.45, track_thres = None, device = [DevInt 0],
      n_trials = 3, resume = False\<rparr>"

definition example_state :: state where
  "example_state =
     \<lparr>heap = (\<lambda>_. example_opts), glob_opt = Some 0, files = Map.empty,
      dirs = {[''trackers'', ''strongsort'', ''configs'']}\<rparr>"

definition example_study :: study where
  "example_study =
     \<lparr>directions = [Maximize, Maximize, Maximize],
      trials =
        [\<lparr>number = 0, params = [(''max_age'', PInt 30)], trial_values = [50, 70, 60]\<rparr>,
         \<lparr>number = 1, params = [(''max_age'', PInt 40)], trial_values = [55.2, 61, 58.7]\<rparr>,
         \<lparr>number = 2, params = [(''max_age'', PInt 50)], trial_values = [55.2, 60, 59]\<rparr>]\<rparr>"

text \<open>A sampler, a trial that has answered nothing yet, and a state and a command line
  with a tracker type that has no branch.\<close>

definition example_sampler :: sampler where
  "example_sampler =
     \<lparr>sug_float = (\<lambda>name lo hi.
        if name \<in> {''conf_thres'', ''track_thres'', ''det_thresh''} then 0.5
        else if name = ''iou_thresh'' then 0.3
        else (lo + hi) / 2),
      sug_int = (\<lambda>name lo hi step. lo + step),
      sug_cat = (\<lambda>name choices. last choices)\<rparr>"

definition fresh_trial :: trial where
  "fresh_trial = \<lparr>number = 0, params = [], trial_values = []\<rparr>"



text \<open>A state whose options object selects bytetrack, one for ocsort, and what the
  example sampler draws and \<open>get_new_config\<close> writes for strongsort.\<close>

definition bytetrack_state :: state where
  "bytetrack_state =
     \<lparr>heap = (\<lambda>_. example_opts\<lparr>tracking_method := ''bytetrack'',
                 tracking_config := [''trackers'', ''bytetrack'', ''configs'', ''bytetrack.yaml'']\<rparr>),
      glob_opt = Some 0, files = Map.empty,
      dirs = {[''trackers'', ''bytetrack'', ''configs'']}\<rparr>"

definition ocsort_state :: state where
  "ocsort_state =
     \<lparr>heap = (\<lambda>_. example_opts\<lparr>tracking_method := ''ocsort'',
                 tracking_config := [''trackers'', ''ocsort'', ''configs'', ''ocsort.yaml'']\<rparr>),
      glob_opt = Some 0, files = Map.empty,
      dirs = {[''trackers'', ''ocsort'', ''configs'']}\<rparr>"

definition strongsort_drawn :: pdict where
  "strongsort_drawn =
     [(''conf_thres'', PFloat 0.5), (''iou_thresh'', PFloat 0.3), (''ecc'', PBool False),
      (''ema_alpha'', PFloat 0.825), (''max_dist'', PFloat 0.25), (''max_iou_dist'', PFloat 0.7),
      (''max_age'', PInt 20), (''n_init'', PInt 2), (''mc_lambda'', PFloat 0.995),
      (''nn_budget'', PInt 100), (''max_unmatched_preds'', PInt 0)]"

definition strongsort_written :: pdict where
  "strongsort_written =
     [(''ecc'', PBool False), (''mc_lambda'', PFloat 0.995), (''ema_alpha'', PFloat 0.825),
      (''max_dist'', PFloat 0.25), (''max_iou_dist'', PFloat 0.7),
      (''max_unmatched_preds'', PInt 0), (''max_age'', PInt 20), (''n_init'', PInt 2),
      (''nn_budget'', PInt 100)]"

text \<open>An evaluation for the examples: it prints the report of \<open>report_pieces\<close> when
  the configuration file holds one mapping, for the tracker its options name, and the
  report of a failed run otherwise.  With it come an optimizer that always answers like
  the example sampler, a command line for two trials of strongsort, a state that
  already holds a checkpoint, and the study these two trials produce.\<close>

definition example_run :: evaluation where
  "example_run opt fs =
     (case fs (tracking_config opt) of
        Some (Yaml cs [(m, mapping)]) \<Rightarrow>
          (if m = tracking_method opt then join_py ''COMBINED'' report_pieces else crash_report)
      | _ \<Rightarrow> crash_report)"




definition initial_state :: state where
  "initial_state =
     \<lparr>heap = (\<lambda>_. example_opts), glob_opt = None,
      files = [[''strongsort_study.pkl''] \<mapsto> Pickle example_study],
      dirs = {[''trackers'', ''strongsort'', ''configs'']}\<rparr>"


text \<open>The state of the example without the directory of the configuration file, and a
  state with two options objects: the global one at address 0 and, at address 1, a copy
  with the tracker type \<open>m\<close> and the same configuration path.\<close>

definition no_dir_state :: state where
  "no_dir_state = initial_state\<lparr>dirs := {}\<rparr>"

definition two_objects_state :: "string \<Rightarrow> state" where
  "two_objects_state m =
     \<lparr>heap = (\<lambda>_. example_opts)(1 := example_opts\<lparr>tracking_method := m\<rparr>),
      glob_opt = Some 0, files = Map.empty,
      dirs = {[''trackers'', ''strongsort'', ''configs'']}\<rparr>"

text \<open>The same two objects, the one at address 1 naming a configuration file of
  its own.\<close>

definition other_path_state :: state where
  "other_path_state =
     \<lparr>heap = (\<lambda>_. example_opts)
               (1 := example_opts\<lparr>tracking_config := [''trackers'', ''strongsort'', ''configs'', ''trial.yaml'']\<rparr>),
      glob_opt = Some 0, files = Map.empty,
      dirs = {[''trackers'', ''strongsort'', ''configs'']}\<rparr>"

section \<open>Properties\<close>

subsection \<open>Splitting and joining\<close>

lemma split_py_nonempty: "split_py sep s \<noteq> []"
  by (induction sep s rule: split_py.induct) (auto split: list.splits)

lemma split_py_no_occurrence:
  "\<not> sublist sep s \<Longrightarrow> split_py sep s = [s]"
proof (induction s)
  case Nil
  then show ?case by simp
next
  case (Cons c cs)
  have np: "\<not> prefix sep (c # cs)"
    using Cons.prems prefix_imp_sublist by blast
  have "\<not> sublist sep cs"
    using Cons.prems by (auto simp: sublist_Cons_right)
  then have "split_py sep cs = [cs]" by (rule Cons.IH)
  with np show ?case by simp
qed

text \<open>A separator that no earlier position starts is where the first cut is made.\<close>

lemma split_py_cut:
  "sep \<noteq> [] \<Longrightarrow> (\<And>i. i < length p \<Longrightarrow> \<not> prefix sep (drop i p @ sep @ r))
   \<Longrightarrow> split_py sep (p @ sep @ r) = p # split_py sep r"
proof (induction p)
  case Nil
  obtain c cs where s: "sep = c # cs" using Nil.prems(1) by (cases sep) auto
  have "prefix sep ((c # cs) @ r)" by (simp add: s)
  then show ?case by (simp add: s)
next
  case (Cons x p)
  have np: "\<not> prefix sep (x # p @ sep @ r)"
    using Cons.prems(2)[of 0] by simp
  have "\<And>i. i < length p \<Longrightarrow> \<not> prefix sep (drop i p @ sep @ r)"
  proof -
    fix i assume "i < length p"
    then show "\<not> prefix sep (drop i p @ sep @ r)"
      using Cons.prems(2)[of "Suc i"] by simp
  qed
  then have "split_py sep (p @ sep @ r) = p # split_py sep r"
    using Cons.IH Cons.prems(1) by blast
  with np show ?case by simp
qed

text \<open>When the first character of the separator does not occur again in it, an
  occurrence cannot straddle the end of a piece that is free of the separator.\<close>

lemma no_overlap:
  assumes ne: "sep \<noteq> []" and hd: "hd sep \<notin> set (tl sep)"
    and free: "\<not> sublist sep p" and i: "i < length p"
  shows "\<not> prefix sep (drop i p @ sep @ r)"
proof
  assume pre: "prefix sep (drop i p @ sep @ r)"
  define q where "q = drop i p"
  have qne: "0 < length q" using i by (simp add: q_def)
  from pre obtain zs where eq: "q @ sep @ r = sep @ zs"
    by (auto simp: prefix_def q_def)
  show False
  proof (cases "length sep \<le> length q")
    case True
    from eq have "take (length sep) (q @ sep @ r) = sep" by simp
    with True have "take (length sep) q = sep" by simp
    then have "q = sep @ drop (length sep) q"
      by (metis append_take_drop_id)
    then have "p = take i p @ sep @ drop (length sep) q"
      by (metis append_take_drop_id q_def)
    then have "sublist sep p" unfolding sublist_def by blast
    with free show False by simp
  next
    case False
    then have lt: "length q < length sep" by simp
    have "(q @ sep @ r) ! length q = hd sep"
      using ne by (simp add: nth_append hd_conv_nth)
    moreover have "(sep @ zs) ! length q = sep ! length q"
      using lt by (simp add: nth_append)
    ultimately have a: "sep ! length q = hd sep" using eq by simp
    obtain k where k: "length q = Suc k" using qne by (cases "length q") auto
    have "sep ! Suc k = tl sep ! k" using ne by (cases sep) auto
    moreover have "k < length (tl sep)" using lt k by simp
    ultimately have "sep ! length q \<in> set (tl sep)" using k by simp
    with a hd show False by simp
  qed
qed

lemma split_py_join:
  assumes ne: "sep \<noteq> []" and hd: "hd sep \<notin> set (tl sep)"
  shows "ps \<noteq> [] \<Longrightarrow> (\<forall>p\<in>set ps. \<not> sublist sep p) \<Longrightarrow> split_py sep (join_py sep ps) = ps"
proof (induction ps rule: induct_list012)
  case 1
  then show ?case by simp
next
  case (2 p)
  then show ?case by (simp add: split_py_no_occurrence)
next
  case (3 p q ps)
  have free: "\<not> sublist sep p" using 3 by simp
  have "split_py sep (p @ sep @ join_py sep (q # ps)) = p # split_py sep (join_py sep (q # ps))"
    using ne no_overlap[OF ne hd free] by (rule split_py_cut)
  moreover have "split_py sep (join_py sep (q # ps)) = q # ps" using 3 by simp
  ultimately show ?case by simp
qed

text \<open>Every text is the join of the pieces of its split, and no piece contains the
  separator.\<close>

lemma join_py_Cons: "ps \<noteq> [] \<Longrightarrow> join_py sep (p # ps) = p @ sep @ join_py sep ps"
  by (cases ps) simp_all

lemma join_py_split_py: "sep \<noteq> [] \<Longrightarrow> join_py sep (split_py sep s) = s"
proof (induction sep s rule: split_py.induct)
  case (1 sep)
  then show ?case by simp
next
  case (2 sep c cs)
  show ?case
  proof (cases "prefix sep (c # cs)")
    case True
    then obtain zs where z: "c # cs = sep @ zs" by (auto simp: prefix_def)
    then have d: "drop (length sep) (c # cs) = zs" by (metis append_eq_conv_conj)
    have "join_py sep (split_py sep zs) = zs" using 2(1) 2(3) True d by simp
    then have j: "join_py sep ([] # split_py sep zs) = c # cs"
      by (simp add: join_py_Cons split_py_nonempty z)
    have "split_py sep (c # cs) = [] # split_py sep zs"
      using True 2(3) d by simp
    with j show ?thesis by simp
  next
    case False
    obtain p ps where s: "split_py sep cs = p # ps"
      using split_py_nonempty[of sep cs] by (cases "split_py sep cs") auto
    have "join_py sep (p # ps) = cs" using 2(2) 2(3) False s by simp
    then have "join_py sep ((c # p) # ps) = c # cs" by (cases ps) simp_all
    then show ?thesis using False s by simp
  qed
qed

lemma hd_split_py_prefix: "prefix (hd (split_py sep s)) s"
proof (induction sep s rule: split_py.induct)
  case (1 sep)
  then show ?case by simp
next
  case (2 sep c cs)
  show ?case
  proof (cases "sep \<noteq> [] \<and> prefix sep (c # cs)")
    case True
    then show ?thesis by simp
  next
    case False
    obtain p ps where s: "split_py sep cs = p # ps"
      using split_py_nonempty[of sep cs] by (cases "split_py sep cs") auto
    have "prefix p cs" using 2(2) False s by auto
    then show ?thesis using False s by auto
  qed
qed

lemma split_py_pieces_free:
  "sep \<noteq> [] \<Longrightarrow> p \<in> set (split_py sep s) \<Longrightarrow> \<not> sublist sep p"
proof (induction sep s arbitrary: p rule: split_py.induct)
  case (1 sep)
  then show ?case by simp
next
  case (2 sep c cs)
  show ?case
  proof (cases "prefix sep (c # cs)")
    case True
    then have "split_py sep (c # cs) = [] # split_py sep (drop (length sep) (c # cs))"
      using 2(3) by simp
    then have "p = [] \<or> p \<in> set (split_py sep (drop (length sep) (c # cs)))"
      using 2(4) by auto
    then show ?thesis using 2(1)[of p] 2(3) True by auto
  next
    case False
    obtain q qs where s: "split_py sep cs = q # qs"
      using split_py_nonempty[of sep cs] by (cases "split_py sep cs") auto
    have pc: "p = c # q \<or> p \<in> set qs" using 2(4) False s by auto
    have fq: "\<not> sublist sep q" using 2(2)[of q] 2(3) False s by simp
    show ?thesis
    proof (cases "p = c # q")
      case True
      have "prefix q cs" using hd_split_py_prefix[of sep cs] s by simp
      then have "prefix (c # q) (c # cs)" by simp
      then have "\<not> prefix sep (c # q)" using False prefix_order.trans by blast
      then show ?thesis using True fq by (simp add: sublist_Cons_right)
    next
      case False
      then have "p \<in> set qs" using pc by simp
      then show ?thesis using 2(2)[of p] 2(3) \<open>\<not> prefix sep (c # cs)\<close> s by simp
    qed
  qed
qed


subsection \<open>The scores of a report\<close>

lemmas text_defs =
  findall_first_def number_pattern_def isdigit_def issign_def isdot_def max_rep_def
  min_rep_def float_py_def unsigned_float_def digits_val_def digit_val_def nl_def

lemma parse_report_values:
  assumes "first_floats (slice_2_m1 (split_py ''COMBINED'' results)) = Inr vs"
  shows "parse_report results =
           (if 3 \<le> length vs then Inr (vs ! 0, vs ! 1, vs ! 2)
            else Inl (KeyError ([''HOTA'', ''MOTA'', ''IDF1''] ! length vs)))"
proof -
  consider "vs = []" | a where "vs = [a]" | a b where "vs = [a, b]"
    | a b c ws where "vs = a # b # c # ws"
    by (metis list.exhaust)
  then show ?thesis
    by cases (simp_all add: assms parse_report_def dict_get_def)
qed

lemma parse_report_error:
  assumes "first_floats (slice_2_m1 (split_py ''COMBINED'' results)) = Inl e"
  shows "parse_report results = Inl e"
  by (simp add: assms parse_report_def)

text \<open>
  Claim C1, as the code has it.  Every report is, in exactly one way, the join of
  pieces that do not contain \<open>COMBINED\<close>: the texts between the occurrences of the
  marker.  The extractor drops the first two pieces (the text before the first marker
  and the text between the first and the second marker) and the last piece, takes the
  first number of every piece that is left, and returns the first three numbers as
  HOTA, MOTA and IDF1, in this order.  With fewer than three numbers the first name
  without a number is a \<open>KeyError\<close>.
\<close>

theorem parse_report_pieces:
  "\<exists>ps. ps \<noteq> [] \<and> join_py ''COMBINED'' ps = results \<and>
     (\<forall>p\<in>set ps. \<not> sublist ''COMBINED'' p) \<and>
     (\<forall>qs. qs \<noteq> [] \<and> join_py ''COMBINED'' qs = results \<and>
           (\<forall>q\<in>set qs. \<not> sublist ''COMBINED'' q) \<longrightarrow> qs = ps) \<and>
     parse_report results =
       (case first_floats (butlast (drop 2 ps)) of
          Inl e \<Rightarrow> Inl e
        | Inr vs \<Rightarrow>
            (if 3 \<le> length vs then Inr (vs ! 0, vs ! 1, vs ! 2)
             else Inl (KeyError ([''HOTA'', ''MOTA'', ''IDF1''] ! length vs))))"
proof -
  define ps where "ps = split_py ''COMBINED'' results"
  have ne: "ps \<noteq> []" by (simp add: ps_def split_py_nonempty)
  have j: "join_py ''COMBINED'' ps = results" by (simp add: ps_def join_py_split_py)
  have free: "\<forall>p\<in>set ps. \<not> sublist ''COMBINED'' p"
    using split_py_pieces_free[of "''COMBINED''" _ results] by (simp add: ps_def)
  have uniq: "qs = ps"
    if "qs \<noteq> [] \<and> join_py ''COMBINED'' qs = results \<and> (\<forall>q\<in>set qs. \<not> sublist ''COMBINED'' q)"
    for qs
  proof -
    have "split_py ''COMBINED'' (join_py ''COMBINED'' qs) = qs"
      using that by (intro split_py_join) simp_all
    then show ?thesis using that by (simp add: ps_def)
  qed
  have s: "slice_2_m1 (split_py ''COMBINED'' results) = butlast (drop 2 ps)"
    by (simp add: slice_2_m1_def ps_def)
  have r: "parse_report results =
       (case first_floats (butlast (drop 2 ps)) of
          Inl e \<Rightarrow> Inl e
        | Inr vs \<Rightarrow>
            (if 3 \<le> length vs then Inr (vs ! 0, vs ! 1, vs ! 2)
             else Inl (KeyError ([''HOTA'', ''MOTA'', ''IDF1''] ! length vs))))"
  proof (cases "first_floats (butlast (drop 2 ps))")
    case (Inl e)
    then show ?thesis using parse_report_error[of results e] s by simp
  next
    case (Inr vs)
    then show ?thesis using parse_report_values[of results vs] s by simp
  qed
  from ne j free uniq r show ?thesis by blast
qed

lemma pieces_free: "\<forall>p\<in>set report_pieces. \<not> sublist ''COMBINED'' p"
  by (simp add: report_pieces_def nl_def sublist_Cons_right)

lemma pieces_values: "first_floats (butlast (drop 2 report_pieces)) = Inr [55.2, 61, 58.7]"
  by (simp add: report_pieces_def text_defs)

text \<open>On the report with five markers the three scores are 55.2, 61.0 and 58.7.\<close>

theorem parse_report_pieces_witness:
  "report_pieces \<noteq> [] \<and> list_all (\<lambda>p. \<not> sublist ''COMBINED'' p) report_pieces \<and>
   parse_report (join_py ''COMBINED'' report_pieces) = Inr (55.2, 61, 58.7)"
proof -
  have ne: "report_pieces \<noteq> []" by (simp add: report_pieces_def)
  from parse_report_pieces[of "join_py ''COMBINED'' report_pieces"]
  obtain ps where
    u: "\<forall>qs. qs \<noteq> [] \<and> join_py ''COMBINED'' qs = join_py ''COMBINED'' report_pieces \<and>
           (\<forall>q\<in>set qs. \<not> sublist ''COMBINED'' q) \<longrightarrow> qs = ps"
    and r: "parse_report (join_py ''COMBINED'' report_pieces) =
       (case first_floats (butlast (drop 2 ps)) of
          Inl e \<Rightarrow> Inl e
        | Inr vs \<Rightarrow>
            (if 3 \<le> length vs then Inr (vs ! 0, vs ! 1, vs ! 2)
             else Inl (KeyError ([''HOTA'', ''MOTA'', ''IDF1''] ! length vs))))"
    by blast
  have "report_pieces = ps" using u ne pieces_free by blast
  then have "parse_report (join_py ''COMBINED'' report_pieces) = Inr (55.2, 61, 58.7)"
    using r pieces_values by simp
  then show ?thesis using ne pieces_free by (simp add: list_all_iff)
qed

text \<open>On the report of the specification, with four markers, the text after the first
  marker is dropped with the text before it: two numbers are left and \<open>IDF1\<close> has
  none.\<close>

theorem spec_report_counterexample:
  "parse_report spec_report = Inl (KeyError ''IDF1'') \<and>
   parse_report spec_report \<noteq> Inr (55.2, 61, 58.7)"
  by (simp add: spec_report_def parse_report_def slice_2_m1_def dict_get_def text_defs)

text \<open>A report without the marker, or with fewer than three numbers, has no scores.\<close>

lemma parse_report_incomplete:
  assumes "\<not> sublist ''COMBINED'' results \<or>
           (\<forall>vs. first_floats (slice_2_m1 (split_py ''COMBINED'' results)) = Inr vs \<longrightarrow> length vs < 3)"
  shows "\<exists>e. parse_report results = Inl e"
proof -
  have few: "\<forall>vs. first_floats (slice_2_m1 (split_py ''COMBINED'' results)) = Inr vs \<longrightarrow> length vs < 3"
  proof (cases "sublist ''COMBINED'' results")
    case True
    with assms show ?thesis by blast
  next
    case False
    then have "split_py ''COMBINED'' results = [results]" by (rule split_py_no_occurrence)
    then show ?thesis by (simp add: slice_2_m1_def)
  qed
  show ?thesis
  proof (cases "first_floats (slice_2_m1 (split_py ''COMBINED'' results))")
    case (Inl e)
    then show ?thesis using parse_report_error by blast
  next
    case (Inr vs)
    with few have "length vs < 3" by blast
    with Inr show ?thesis using parse_report_values[of results vs] by simp
  qed
qed

lemma long_report_values:
  "first_floats (slice_2_m1 (split_py ''COMBINED'' (join_py ''COMBINED'' long_report_pieces)))
     = Inr [55.2, 61, 58.7, 12, -3.5]"
  by (simp add: long_report_pieces_def slice_2_m1_def text_defs)

subsection \<open>The device list\<close>














lemma no_single_sublist: "x \<notin> set ys \<Longrightarrow> \<not> sublist [x] ys"
  by (induction ys) (auto simp: sublist_Cons_right)






subsection \<open>The best trial\<close>

lemma max_loop_first:
  assumes "\<forall>x\<in>set (done @ xs). key x = Inr (f x)"
    and "i < length done" and "done ! i = best" and "bk = f best"
    and "\<forall>j<i. f (done ! j) < bk" and "\<forall>x\<in>set done. f x \<le> bk"
  shows "\<exists>t i'. max_loop key best bk xs = Inr t \<and> i' < length (done @ xs) \<and>
           (done @ xs) ! i' = t \<and> (\<forall>j<i'. f ((done @ xs) ! j) < f t) \<and>
           (\<forall>x\<in>set (done @ xs). f x \<le> f t)"
  using assms
proof (induction xs arbitrary: "done" best bk i)
  case Nil
  then show ?case by auto
next
  case (Cons x xs)
  have kx: "key x = Inr (f x)" using Cons.prems(1) by simp
  have all: "\<forall>y\<in>set ((done @ [x]) @ xs). key y = Inr (f y)" using Cons.prems(1) by simp
  show ?case
  proof (cases "bk < f x")
    case True
    have "\<exists>t i'. max_loop key x (f x) xs = Inr t \<and> i' < length ((done @ [x]) @ xs) \<and>
           ((done @ [x]) @ xs) ! i' = t \<and> (\<forall>j<i'. f (((done @ [x]) @ xs) ! j) < f t) \<and>
           (\<forall>y\<in>set ((done @ [x]) @ xs). f y \<le> f t)"
    proof (rule Cons.IH[OF all, of "length done"])
      show "length done < length (done @ [x])" by simp
      show "(done @ [x]) ! length done = x" by simp
      show "f x = f x" by simp
      show "\<forall>j<length done. f ((done @ [x]) ! j) < f x"
        using Cons.prems(6) True by (auto simp: nth_append) (meson le_less_trans nth_mem)
      show "\<forall>y\<in>set (done @ [x]). f y \<le> f x"
        using Cons.prems(6) True by auto
    qed
    then show ?thesis using kx True by simp
  next
    case False
    have "\<exists>t i'. max_loop key best bk xs = Inr t \<and> i' < length ((done @ [x]) @ xs) \<and>
           ((done @ [x]) @ xs) ! i' = t \<and> (\<forall>j<i'. f (((done @ [x]) @ xs) ! j) < f t) \<and>
           (\<forall>y\<in>set ((done @ [x]) @ xs). f y \<le> f t)"
    proof (rule Cons.IH[OF all, of i])
      show "i < length (done @ [x])" using Cons.prems(2) by simp
      show "(done @ [x]) ! i = best" using Cons.prems(2,3) by (simp add: nth_append)
      show "bk = f best" by (rule Cons.prems(4))
      show "\<forall>j<i. f ((done @ [x]) ! j) < bk"
        using Cons.prems(2,5) by (simp add: nth_append)
      show "\<forall>y\<in>set (done @ [x]). f y \<le> bk"
        using Cons.prems(6) False by auto
    qed
    then show ?thesis using kx False by simp
  qed
qed

lemma max_key_first:
  assumes "xs \<noteq> []" and "\<forall>x\<in>set xs. key x = Inr (f x)"
  shows "\<exists>t i. max_key key xs = Inr t \<and> i < length xs \<and> xs ! i = t \<and>
           (\<forall>j<i. f (xs ! j) < f t) \<and> (\<forall>x\<in>set xs. f x \<le> f t)"
proof -
  obtain x xs' where xs: "xs = x # xs'" using assms(1) by (cases xs) auto
  have "\<exists>t i'. max_loop key x (f x) xs' = Inr t \<and> i' < length ([x] @ xs') \<and>
           ([x] @ xs') ! i' = t \<and> (\<forall>j<i'. f (([x] @ xs') ! j) < f t) \<and>
           (\<forall>y\<in>set ([x] @ xs'). f y \<le> f t)"
    by (rule max_loop_first[of "[x]" xs' key f 0]) (use assms(2) xs in auto)
  then show ?thesis using assms(2) xs by (simp add: max_key_def)
qed

text \<open>
  Claim C5.  When the front search returns at least one trial (each with its scores)
  and the configuration file can be opened, the file is written from the trial of the
  front with the greatest first score; among trials with that score it is the first
  one the front search returned.  The file starts with the number of that trial and
  with its scores, and holds its parameters under the name of the tracker.
\<close>

theorem best_HOTA_written:
  assumes "best_trials study \<noteq> []"
    and "\<forall>t\<in>set (best_trials study). trial_values t \<noteq> []"
    and "butlast (tracking_config opt) = [] \<or> butlast (tracking_config opt) \<in> dirs st"
  shows "\<exists>t i st'.
           write_best_HOTA_params_to_config best_trials opt study st = (Inr (), st') \<and>
           i < length (best_trials study) \<and> best_trials study ! i = t \<and>
           (\<forall>u\<in>set (best_trials study). trial_values u ! 0 \<le> trial_values t ! 0) \<and>
           (\<forall>j<i. trial_values (best_trials study ! j) ! 0 < trial_values t ! 0) \<and>
           files st' (tracking_config opt) =
             Some (Yaml [TrialNumber (number t), Scores (trial_values t)]
                        [(tracking_method opt, params t)])"
proof -
  have "\<forall>t\<in>set (best_trials study). value_at 0 t = Inr (trial_values t ! 0)"
    using assms(2) by (simp add: value_at_def)
  from max_key_first[OF assms(1) this]
  obtain t i where m: "max_key (value_at 0) (best_trials study) = Inr t"
    and i: "i < length (best_trials study)" "best_trials study ! i = t"
    and first: "\<forall>j<i. trial_values (best_trials study ! j) ! 0 < trial_values t ! 0"
    and top: "\<forall>u\<in>set (best_trials study). trial_values u ! 0 \<le> trial_values t ! 0"
    by blast
  show ?thesis
    using m i first top assms(3)
    by (auto simp: write_best_HOTA_params_to_config_def open_w_def)
qed


text \<open>Of the two trials with the first score 55.2, trial 1 is written.\<close>

theorem best_HOTA_written_witness:
  "trials example_study \<noteq> [] \<and>
   list_all (\<lambda>t. trial_values t \<noteq> []) (trials example_study) \<and>
   butlast (tracking_config example_opts) \<in> dirs example_state \<and>
   (\<exists>t i st'.
      write_best_HOTA_params_to_config trials example_opts example_study example_state = (Inr (), st') \<and>
      i < length (trials example_study) \<and> trials example_study ! i = t \<and>
      (\<forall>u\<in>set (trials example_study). trial_values u ! 0 \<le> trial_values t ! 0) \<and>
      (\<forall>j<i. trial_values (trials example_study ! j) ! 0 < trial_values t ! 0) \<and>
      files st' (tracking_config example_opts) =
        Some (Yaml [TrialNumber (number t), Scores (trial_values t)]
                   [(tracking_method example_opts, params t)])) \<and>
   files (snd (write_best_HOTA_params_to_config trials example_opts example_study example_state))
      [''trackers'', ''strongsort'', ''configs'', ''strongsort.yaml''] =
     Some (Yaml [TrialNumber 1, Scores [55.2, 61, 58.7]] [(''strongsort'', [(''max_age'', PInt 40)])])"
proof -
  have h1: "trials example_study \<noteq> []" by (simp add: example_study_def)
  have h2: "\<forall>t\<in>set (trials example_study). trial_values t \<noteq> []" by (simp add: example_study_def)
  have h3: "butlast (tracking_config example_opts) = [] \<or>
            butlast (tracking_config example_opts) \<in> dirs example_state"
    by (simp add: example_opts_def example_state_def)
  have c: "files (snd (write_best_HOTA_params_to_config trials example_opts example_study example_state))
      [''trackers'', ''strongsort'', ''configs'', ''strongsort.yaml''] =
     Some (Yaml [TrialNumber 1, Scores [55.2, 61, 58.7]] [(''strongsort'', [(''max_age'', PInt 40)])])"
    by (simp add: write_best_HOTA_params_to_config_def max_key_def value_at_def open_w_def
        example_opts_def example_state_def example_study_def)
  have h3': "butlast (tracking_config example_opts) \<in> dirs example_state"
    by (simp add: example_opts_def example_state_def)
  show ?thesis
    using best_HOTA_written[of trials example_study example_opts example_state, OF h1 h2 h3] h1 h2 h3' c
    by (simp add: list_all_iff)
qed

subsection \<open>The sampler\<close>

lemmas sampling_defs =
  suggest_float_def suggest_int_def suggest_categorical_def Let_def split_def
  set_conf_thres_def set_track_thres_def open_w_def bind_def

text \<open>\<open>get_new_config\<close> in one equation: the options object is updated, the trial
  records the draws of the declared space, and the document is written if the file can
  be opened.\<close>

lemma get_new_config_eq:
  "get_new_config sm self trial st =
     (let a = self_opt self;
          opt = heap st a;
          st1 = st\<lparr>heap := (heap st)(a := opts_after sm opt)\<rparr>
      in if butlast (tracking_config opt) = [] \<or> butlast (tracking_config opt) \<in> dirs st
         then (Inr (params_update (\<lambda>ps. ps @ draws sm (tracking_method opt)) trial),
               st1\<lparr>files := (files st)(tracking_config opt \<mapsto> Yaml [] (config_written sm opt))\<rparr>)
         else (Inl FileNotFoundError, st1))"
proof -
  consider (s) "tracking_method (heap st (self_opt self)) = ''strongsort''"
    | (b) "tracking_method (heap st (self_opt self)) = ''bytetrack''"
    | (o) "tracking_method (heap st (self_opt self)) = ''ocsort''"
    | (u) "tracking_method (heap st (self_opt self)) \<notin> {''strongsort'', ''bytetrack'', ''ocsort''}"
    by blast
  then show ?thesis
  proof cases
    case s
    then show ?thesis
      unfolding get_new_config_def
      by (simp add: sampling_defs draws_def declared_space_def drawn_def config_written_def opts_after_def)
  next
    case b
    then show ?thesis
      unfolding get_new_config_def
      by (simp add: sampling_defs draws_def declared_space_def drawn_def config_written_def opts_after_def)
  next
    case o
    then show ?thesis
      unfolding get_new_config_def
      by (simp add: sampling_defs draws_def declared_space_def drawn_def config_written_def opts_after_def)
  next
    case u
    then show ?thesis
      unfolding get_new_config_def
      by (simp add: sampling_defs draws_def declared_space_def drawn_def config_written_def opts_after_def)
  qed
qed





lemma map_of_draws:
  assumes "distinct (map fst xs)" and "(n, r) \<in> set xs"
  shows "map_of (map (\<lambda>(name, r). (name, f name r)) xs) n = Some (f n r)"
  using assms by (induction xs) (auto simp: rev_image_eqI)

lemma declared_space_distinct: "distinct (map fst (declared_space m))"
  by (simp add: declared_space_def)

text \<open>
  The draws of a trial.  For a tracker type with a branch, a fresh trial and a
  configuration file that can be opened, \<open>get_new_config\<close> asks once for each
  parameter of the declared space, by its rule, and the trial records the answers in
  this order; answers that respect their rules are recorded as they are.  The mapping
  written under the name of the tracker holds the answer for each key of
  \<open>persisted_from\<close>.
\<close>

lemma declared_parameters_sampled:
  assumes "m \<in> {''strongsort'', ''bytetrack'', ''ocsort''}"
    and "tracking_method (heap st a) = m"
    and "butlast (tracking_config (heap st a)) = [] \<or> butlast (tracking_config (heap st a)) \<in> dirs st"
    and "\<forall>(name, r)\<in>set (declared_space m). admissible r (drawn sm name r)"
    and "params trial = []"
  shows "\<exists>trial' st' mapping.
           get_new_config sm (Objective a) trial st = (Inr trial', st') \<and>
           params trial' = map (\<lambda>(name, r). (name, drawn sm name r)) (declared_space m) \<and>
           (\<forall>(name, r)\<in>set (declared_space m).
              \<exists>v. map_of (params trial') name = Some v \<and> admissible r v) \<and>
           files st' (tracking_config (heap st a)) = Some (Yaml [] [(m, mapping)]) \<and>
           (\<forall>(k, name)\<in>set (persisted_from m).
              map_of mapping k \<noteq> None \<and> map_of mapping k = map_of (params trial') name)"
proof -
  define trial' where "trial' = params_update (\<lambda>ps. ps @ draws sm m) trial"
  define st' where "st' = st\<lparr>heap := (heap st)(a := opts_after sm (heap st a)),
      files := (files st)(tracking_config (heap st a) \<mapsto> Yaml [] (config_written sm (heap st a)))\<rparr>"
  have run: "get_new_config sm (Objective a) trial st = (Inr trial', st')"
    using assms(2,3) by (simp add: get_new_config_eq Let_def trial'_def st'_def)
  have ps: "params trial' = map (\<lambda>(name, r). (name, drawn sm name r)) (declared_space m)"
    using assms(5) by (simp add: trial'_def draws_def)
  have rng: "\<forall>(name, r)\<in>set (declared_space m).
              \<exists>v. map_of (params trial') name = Some v \<and> admissible r v"
    using assms(4) map_of_draws[OF declared_space_distinct, of _ _ m "drawn sm"]
    by (auto simp: ps)
  have "\<exists>mapping. config_written sm (heap st a) = [(m, mapping)] \<and>
           (\<forall>(k, name)\<in>set (persisted_from m).
              map_of mapping k \<noteq> None \<and>
              map_of mapping k = map_of (map (\<lambda>(name, r). (name, drawn sm name r)) (declared_space m)) name)"
  proof -
    consider "m = ''strongsort''" | "m = ''bytetrack''" | "m = ''ocsort''" using assms(1) by blast
    then show ?thesis
    proof cases
      case 1
      then show ?thesis using assms(2)
        by (simp add: config_written_def persisted_from_def declared_space_def drawn_def)
    next
      case 2
      then show ?thesis using assms(2)
        by (simp add: config_written_def persisted_from_def declared_space_def drawn_def)
    next
      case 3
      then show ?thesis using assms(2)
        by (simp add: config_written_def persisted_from_def declared_space_def drawn_def)
    qed
  qed
  then obtain mapping where w: "config_written sm (heap st a) = [(m, mapping)]"
    and per: "\<forall>(k, name)\<in>set (persisted_from m).
              map_of mapping k \<noteq> None \<and> map_of mapping k = map_of (params trial') name"
    using ps by auto
  have "files st' (tracking_config (heap st a)) = Some (Yaml [] [(m, mapping)])"
    by (simp add: st'_def w)
  with run ps rng per show ?thesis by blast
qed


lemmas normal_form_defs =
  get_new_config_eq Let_def opts_after_def config_written_def draws_def declared_space_def
  drawn_def

lemma bytetrack_honest:
  "\<forall>(name, r)\<in>set (declared_space ''bytetrack''). admissible r (drawn example_sampler name r)"
  by (simp add: declared_space_def admissible_def drawn_def example_sampler_def)

lemma declared_parameters_sampled_example:
  "''bytetrack'' \<in> {''strongsort'', ''bytetrack'', ''ocsort''} \<and>
   tracking_method (heap bytetrack_state 0) = ''bytetrack'' \<and>
   butlast (tracking_config (heap bytetrack_state 0)) \<in> dirs bytetrack_state \<and>
   list_all (\<lambda>(name, r). admissible r (drawn example_sampler name r)) (declared_space ''bytetrack'') \<and>
   params fresh_trial = [] \<and>
   (\<exists>trial' st' mapping.
      get_new_config example_sampler (Objective 0) fresh_trial bytetrack_state = (Inr trial', st') \<and>
      params trial' =
        [(''track_thres'', PFloat 0.5), (''track_buffer'', PInt 20), (''match_thresh'', PFloat 0.8)] \<and>
      files st' [''trackers'', ''bytetrack'', ''configs'', ''bytetrack.yaml''] =
        Some (Yaml [] [(''bytetrack'', mapping)]) \<and>
      map_of mapping ''match_thresh'' = Some (PFloat 0.8) \<and>
      map_of mapping ''track_buffer'' = Some (PInt 20))"
proof -
  have h2: "tracking_method (heap bytetrack_state 0) = ''bytetrack''"
    by (simp add: bytetrack_state_def)
  have h3: "butlast (tracking_config (heap bytetrack_state 0)) \<in> dirs bytetrack_state"
    by (simp add: bytetrack_state_def)
  have h5: "params fresh_trial = []" by (simp add: fresh_trial_def)
  have d: "map (\<lambda>(name, r). (name, drawn example_sampler name r)) (declared_space ''bytetrack'') =
        [(''track_thres'', PFloat 0.5), (''track_buffer'', PInt 20), (''match_thresh'', PFloat 0.8)]"
    by (simp add: declared_space_def drawn_def example_sampler_def)
  have c: "tracking_config (heap bytetrack_state 0) = [''trackers'', ''bytetrack'', ''configs'', ''bytetrack.yaml'']"
    by (simp add: bytetrack_state_def)
  from declared_parameters_sampled[of "''bytetrack''" bytetrack_state 0 example_sampler fresh_trial]
    h2 h3 h5 bytetrack_honest
  obtain trial' st' mapping where
    r: "get_new_config example_sampler (Objective 0) fresh_trial bytetrack_state = (Inr trial', st')"
    and p: "params trial' = map (\<lambda>(name, r). (name, drawn example_sampler name r)) (declared_space ''bytetrack'')"
    and f: "files st' (tracking_config (heap bytetrack_state 0)) = Some (Yaml [] [(''bytetrack'', mapping)])"
    and k: "\<forall>(k, name)\<in>set (persisted_from ''bytetrack'').
              map_of mapping k \<noteq> None \<and> map_of mapping k = map_of (params trial') name"
    by auto
  have "map_of mapping ''match_thresh'' = Some (PFloat 0.8)"
    and "map_of mapping ''track_buffer'' = Some (PInt 20)"
    using k by (simp_all add: persisted_from_def p d)
  with r p f show ?thesis
    using h2 h3 h5 bytetrack_honest by (simp add: d c list_all_iff)
qed

text \<open>For strongsort the drawn \<open>conf_thres\<close> goes to the options object, which the
  evaluation receives, and the drawn \<open>iou_thresh\<close> is not used: neither value is in the
  written mapping.\<close>

lemma strongsort_example:
  "map_sum id params (fst (get_new_config example_sampler (Objective 0) fresh_trial example_state))
     = Inr strongsort_drawn \<and>
   files (snd (get_new_config example_sampler (Objective 0) fresh_trial example_state))
     [''trackers'', ''strongsort'', ''configs'', ''strongsort.yaml'']
     = Some (Yaml [] [(''strongsort'', strongsort_written)]) \<and>
   (''conf_thres'', PFloat 0.5) \<in> set strongsort_drawn \<and>
   PFloat 0.5 \<notin> snd ` set strongsort_written \<and>
   (''iou_thresh'', PFloat 0.3) \<in> set strongsort_drawn \<and>
   PFloat 0.3 \<notin> snd ` set strongsort_written"
  by (simp add: normal_form_defs example_state_def example_opts_def example_sampler_def
      fresh_trial_def strongsort_drawn_def strongsort_written_def)

text \<open>The bytetrack branch stores the drawn threshold in the attribute \<open>track_thres\<close>
  and writes \<open>conf_thres\<close>, which it has not changed, under the key \<open>track_thresh\<close>.\<close>

lemma bytetrack_track_thresh:
  assumes "tracking_method (heap st a) = ''bytetrack''"
    and "butlast (tracking_config (heap st a)) = [] \<or> butlast (tracking_config (heap st a)) \<in> dirs st"
  shows "\<exists>trial' st' rest.
           get_new_config sm (Objective a) trial st = (Inr trial', st') \<and>
           files st' (tracking_config (heap st a)) =
             Some (Yaml [] [(''bytetrack'', (''track_thresh'', PFloat (conf_thres (heap st a))) # rest)]) \<and>
           track_thres (heap st' a) = Some (sug_float sm ''track_thres'' 0.35 0.55) \<and>
           conf_thres (heap st' a) = conf_thres (heap st a)"
  using assms by (simp add: normal_form_defs)

text \<open>
  Claim C3 says that every drawn value is written to the configuration of the tracker,
  and in particular that the \<open>track_thresh\<close> written for bytetrack is the value drawn
  for \<open>track_thres\<close>.  In the state below the options hold the \<open>conf_thres\<close> of the
  command line, 0.45, and the sampler answers 0.5 for \<open>track_thres\<close>.  The bytetrack
  branch stores 0.5 in the attribute \<open>track_thres\<close>, which nothing reads, and writes
  0.45 under \<open>track_thresh\<close>.  The ocsort branch, with the same answer 0.5 for its
  threshold, stores it in \<open>conf_thres\<close> and writes 0.5 under \<open>det_thresh\<close>.
\<close>

theorem bytetrack_track_thresh_not_drawn:
  "map_sum id params (fst (get_new_config example_sampler (Objective 0) fresh_trial bytetrack_state))
     = Inr [(''track_thres'', PFloat 0.5), (''track_buffer'', PInt 20), (''match_thresh'', PFloat 0.8)] \<and>
   files (snd (get_new_config example_sampler (Objective 0) fresh_trial bytetrack_state))
     [''trackers'', ''bytetrack'', ''configs'', ''bytetrack.yaml'']
     = Some (Yaml [] [(''bytetrack'',
         [(''track_thresh'', PFloat 0.45), (''match_thresh'', PFloat 0.8),
          (''track_buffer'', PInt 20), (''frame_rate'', PInt 30)])]) \<and>
   track_thres (heap (snd (get_new_config example_sampler (Objective 0) fresh_trial bytetrack_state)) 0)
     = Some 0.5 \<and>
   conf_thres (heap (snd (get_new_config example_sampler (Objective 0) fresh_trial bytetrack_state)) 0)
     = 0.45 \<and>
   files (snd (get_new_config example_sampler (Objective 0) fresh_trial ocsort_state))
     [''trackers'', ''ocsort'', ''configs'', ''ocsort.yaml'']
     = Some (Yaml [] [(''ocsort'',
         [(''det_thresh'', PFloat 0.5), (''max_age'', PInt 20), (''min_hits'', PInt 2),
          (''iou_thresh'', PFloat 0.3), (''delta_t'', PInt 2), (''asso_func'', PStr ''giou''),
          (''inertia'', PFloat 0.25), (''use_byte'', PBool False)])]) \<and>
   conf_thres (heap (snd (get_new_config example_sampler (Objective 0) fresh_trial ocsort_state)) 0)
     = 0.5"
  by (simp add: normal_form_defs bytetrack_state_def ocsort_state_def example_opts_def
      example_sampler_def fresh_trial_def)

subsection \<open>The scores of a trial\<close>

lemma get_new_config_glob:
  "get_new_config sm self trial st = (r, st') \<Longrightarrow> glob_opt st' = glob_opt st"
  by (auto simp: get_new_config_eq Let_def split: if_splits)

lemma objective_call_eq:
  assumes "get_new_config sm self trial st = (Inr trial', st')" and "glob_opt st = Some g"
  shows "objective_call run sm self trial st =
           (case parse_report (run (heap st' g) (files st')) of
              Inl e \<Rightarrow> (Inl e, st')
            | Inr v \<Rightarrow> (Inr (v, trial'), st'))"
proof -
  have "glob_opt st' = Some g" using get_new_config_glob[OF assms(1)] assms(2) by simp
  then show ?thesis by (simp add: objective_call_def bind_def assms(1))
qed

text \<open>
  Claim C4.  A trial whose configuration has been written is evaluated with the global
  options.  When the report of the evaluation does not contain the marker
  \<open>COMBINED\<close>, or when fewer than three numbers come out of the pieces that are
  kept, \<open>__call__\<close> raises: it returns no score at all, and no default takes the place
  of a missing one.  The optimizer does not catch the error, so the batch ends with it
  and records nothing for the trial.
\<close>

theorem incomplete_report_raises:
  assumes "get_new_config sm self trial st = (Inr trial', st')" and "glob_opt st = Some g"
    and "\<not> sublist ''COMBINED'' (run (heap st' g) (files st')) \<or>
         (\<forall>vs. first_floats (slice_2_m1 (split_py ''COMBINED'' (run (heap st' g) (files st')))) = Inr vs
               \<longrightarrow> length vs < 3)"
  shows "\<exists>e. objective_call run sm self trial st = (Inl e, st') \<and>
           (trial = \<lparr>number = length (trials study), params = [], trial_values = []\<rparr> \<and>
            eng (trials study) = sm \<longrightarrow>
              optimize run eng self (Suc n) study st = (Inl e, st'))"
proof -
  obtain e where "parse_report (run (heap st' g) (files st')) = Inl e"
    using parse_report_incomplete[OF assms(3)] by blast
  then have c: "objective_call run sm self trial st = (Inl e, st')"
    by (simp add: objective_call_eq[OF assms(1,2)])
  then have "optimize run eng self (Suc n) study st = (Inl e, st')"
    if "trial = \<lparr>number = length (trials study), params = [], trial_values = []\<rparr> \<and>
        eng (trials study) = sm"
    using that by (simp add: bind_def)
  with c show ?thesis by blast
qed

text \<open>
  Claim C9.  When more than three numbers come out of the pieces that are kept,
  \<open>__call__\<close> returns the first three as HOTA, MOTA and IDF1 and raises nothing: the
  \<open>zip\<close> with the three names leaves the other numbers out.
\<close>

theorem extra_values_discarded:
  assumes "get_new_config sm self trial st = (Inr trial', st')" and "glob_opt st = Some g"
    and "first_floats (slice_2_m1 (split_py ''COMBINED'' (run (heap st' g) (files st')))) = Inr vs"
    and "3 < length vs"
  shows "objective_call run sm self trial st = (Inr ((vs ! 0, vs ! 1, vs ! 2), trial'), st')"
  using parse_report_values[OF assms(3)] assms(4)
  by (simp add: objective_call_eq[OF assms(1,2)])

lemma example_config:
  "\<exists>st'. get_new_config example_sampler (Objective 0) fresh_trial example_state =
          (Inr \<lparr>number = 0, params = strongsort_drawn, trial_values = []\<rparr>, st')"
  by (simp add: normal_form_defs example_state_def example_opts_def example_sampler_def
      fresh_trial_def strongsort_drawn_def)

text \<open>An evaluation that prints the report of a failed run.\<close>

theorem incomplete_report_raises_witness:
  "glob_opt example_state = Some 0 \<and> \<not> sublist ''COMBINED'' crash_report \<and>
   (\<exists>e. fst (objective_call (\<lambda>opt fs. crash_report) example_sampler (Objective 0) fresh_trial
               example_state) = Inl e)"
proof -
  have g: "glob_opt example_state = Some 0" by (simp add: example_state_def)
  have h: "\<not> sublist ''COMBINED'' crash_report"
    by (simp add: crash_report_def nl_def sublist_Cons_right)
  obtain st' where c: "get_new_config example_sampler (Objective 0) fresh_trial example_state =
          (Inr \<lparr>number = 0, params = strongsort_drawn, trial_values = []\<rparr>, st')"
    using example_config by blast
  from incomplete_report_raises[OF c g, of "\<lambda>opt fs. crash_report"] h
  have "\<exists>e. objective_call (\<lambda>opt fs. crash_report) example_sampler (Objective 0) fresh_trial
               example_state = (Inl e, st')"
    by blast
  then show ?thesis using g h by auto
qed

text \<open>An evaluation whose report has five numbers in the pieces that are kept.\<close>

theorem extra_values_discarded_witness:
  "glob_opt example_state = Some 0 \<and>
   3 < length [55.2, 61, 58.7, 12, -3.5 :: real] \<and>
   fst (objective_call (\<lambda>opt fs. join_py ''COMBINED'' long_report_pieces) example_sampler
          (Objective 0) fresh_trial example_state)
     = Inr ((55.2, 61, 58.7), \<lparr>number = 0, params = strongsort_drawn, trial_values = []\<rparr>)"
proof -
  have g: "glob_opt example_state = Some 0" by (simp add: example_state_def)
  obtain st' where c: "get_new_config example_sampler (Objective 0) fresh_trial example_state =
          (Inr \<lparr>number = 0, params = strongsort_drawn, trial_values = []\<rparr>, st')"
    using example_config by blast
  from extra_values_discarded[OF c g, of "\<lambda>opt fs. join_py ''COMBINED'' long_report_pieces"
      "[55.2, 61, 58.7, 12, -3.5]"] long_report_values
  show ?thesis using g by simp
qed

subsection \<open>The trials of a batch\<close>



lemma opts_after_fields:
  "tracking_method (opts_after sm opt) = tracking_method opt"
  "tracking_config (opts_after sm opt) = tracking_config opt"
  "n_trials (opts_after sm opt) = n_trials opt"
  by (simp_all add: opts_after_def)





subsection \<open>File names\<close>

lemma walk_last: "walk ds cur cs = Inr k \<Longrightarrow> k \<noteq> [] \<and> last k = last cs"
  by (induction ds cur cs rule: walk.induct) (auto split: if_splits)

lemma split_py_append_suffix:
  assumes "d \<notin> set suf"
  shows "split_py [d] (x @ suf) = butlast (split_py [d] x) @ [last (split_py [d] x) @ suf]"
proof (induction x)
  case Nil
  have "split_py [d] suf = [suf]"
    using assms by (intro split_py_no_occurrence no_single_sublist)
  then show ?case by simp
next
  case (Cons c cs)
  obtain p ps where s: "split_py [d] cs = p # ps"
    using split_py_nonempty[of "[d]" cs] by (cases "split_py [d] cs") auto
  show ?case
  proof (cases "c = d")
    case True
    then show ?thesis using Cons s by simp
  next
    case False
    then show ?thesis using Cons s by (cases ps) simp_all
  qed
qed

lemma resolve_ends_with:
  assumes "resolve ds (x @ suf) = Inr k" and "CHR ''/'' \<notin> set suf"
  shows "ends_with suf k"
proof -
  have "walk ds (if hd (x @ suf) = CHR ''/'' then [''/''] else []) (split_py ''/'' (x @ suf)) = Inr k"
    using assms(1) by (simp add: resolve_def split: if_splits)
  then have "k \<noteq> [] \<and> last k = last (split_py ''/'' (x @ suf))" by (rule walk_last)
  moreover have "last (split_py ''/'' (x @ suf)) = last (split_py ''/'' x) @ suf"
    using split_py_append_suffix[OF assms(2), of x] by simp
  ultimately show ?thesis by (simp add: ends_with_def suffix_def)
qed






lemma html_key:
  "resolve ds (x @ m @ ''.html'') = Inr k \<Longrightarrow> ends_with ''.html'' k"
  using resolve_ends_with[of ds "x @ m" "''.html''" k] by simp


subsection \<open>The plots\<close>








lemma open_html_files:
  assumes "\<not> ends_with ''.html'' k"
  shows "files (snd (open_name (x @ m @ ''.html'') c st)) k = files st k"
proof (cases "resolve (dirs st) (x @ m @ ''.html'')")
  case (Inl e)
  then show ?thesis by (simp add: open_name_def)
next
  case (Inr p)
  then have "p \<noteq> k" using html_key[OF Inr] assms by auto
  then show ?thesis using Inr by (simp add: open_name_def)
qed




subsection \<open>The main program\<close>











lemma example_report_scores:
  "parse_report (join_py ''COMBINED'' report_pieces) = Inr (55.2, 61, 58.7)"
  by (simp add: report_pieces_def parse_report_def slice_2_m1_def dict_get_def text_defs)












subsection \<open>The options object of the evaluation\<close>

lemma objective_call_no_global:
  assumes "glob_opt st = None"
  shows "objective_call run sm self trial st =
           (case get_new_config sm self trial st of
              (Inl e, st') \<Rightarrow> (Inl e, st')
            | (Inr trial', st') \<Rightarrow> (Inl (NameError ''opt''), st'))"
proof -
  have "glob_opt (snd (get_new_config sm self trial st)) = None"
    using assms by (simp add: get_new_config_eq Let_def)
  then show ?thesis
    by (cases "get_new_config sm self trial st")
       (auto simp: objective_call_def bind_def split: sum.splits)
qed

text \<open>
  Claim C10, as the code has it.  \<open>__call__\<close> runs \<open>get_new_config\<close> first and then
  passes to the evaluation the object the module-level name \<open>opt\<close> refers to, not
  \<open>self.opt\<close>.  Without such a global no evaluation runs, whatever the evaluation
  is: the call raises, and what it raises is \<open>NameError\<close> once \<open>get_new_config\<close> has
  returned (the error of \<open>get_new_config\<close> otherwise).  With a global, the options
  the evaluation receives are those of the global object: when it is another object
  than \<open>self.opt\<close> it is as it was before the call, and when it is the same object
  it holds the threshold just drawn.  The files the evaluation receives are those
  \<open>get_new_config\<close> left: the configuration written from \<open>self.opt\<close> at the path
  \<open>self.opt\<close> names, and every other file as it was.  The path the global object
  names is the one it named before the call; so the evaluation finds the new
  configuration there when both objects name the same path, and what was there before
  the call when they do not.
\<close>

theorem call_uses_global_opt:
  "(glob_opt st = None \<longrightarrow>
      objective_call run sm self trial st = objective_call run' sm self trial st \<and>
      (\<exists>e. fst (objective_call run sm self trial st) = Inl e) \<and>
      (\<forall>trial' st'. get_new_config sm self trial st = (Inr trial', st') \<longrightarrow>
         objective_call run sm self trial st = (Inl (NameError ''opt''), st'))) \<and>
   (\<forall>g trial' st'.
      glob_opt st = Some g \<and> get_new_config sm self trial st = (Inr trial', st') \<longrightarrow>
      objective_call run sm self trial st =
        (map_sum id (\<lambda>v. (v, trial')) (parse_report (run (heap st' g) (files st'))), st') \<and>
      (g \<noteq> self_opt self \<longrightarrow> heap st' g = heap st g) \<and>
      (g = self_opt self \<longrightarrow> heap st' g = opts_after sm (heap st g)) \<and>
      files st' (tracking_config (heap st (self_opt self))) =
        Some (Yaml [] (config_written sm (heap st (self_opt self)))) \<and>
      (\<forall>p. p \<noteq> tracking_config (heap st (self_opt self)) \<longrightarrow> files st' p = files st p) \<and>
      tracking_config (heap st' g) = tracking_config (heap st g))"
proof (intro conjI allI impI)
  assume n: "glob_opt st = None"
  show "objective_call run sm self trial st = objective_call run' sm self trial st"
    by (simp add: objective_call_no_global[OF n])
  show "\<exists>e. fst (objective_call run sm self trial st) = Inl e"
    by (cases "get_new_config sm self trial st")
       (auto simp: objective_call_no_global[OF n] split: sum.splits)
  fix trial' st'
  assume "get_new_config sm self trial st = (Inr trial', st')"
  then show "objective_call run sm self trial st = (Inl (NameError ''opt''), st')"
    by (simp add: objective_call_no_global[OF n])
next
  fix g trial' st'
  assume h: "glob_opt st = Some g \<and> get_new_config sm self trial st = (Inr trial', st')"
  then have r: "get_new_config sm self trial st = (Inr trial', st')" and g: "glob_opt st = Some g"
    by simp_all
  have st': "st' = st\<lparr>heap := (heap st)(self_opt self := opts_after sm (heap st (self_opt self))),
      files := (files st)(tracking_config (heap st (self_opt self)) \<mapsto>
                 Yaml [] (config_written sm (heap st (self_opt self))))\<rparr>"
    using r by (simp add: get_new_config_eq Let_def split: if_splits)
  have g': "glob_opt st' = Some g" using g by (simp add: st')
  show "objective_call run sm self trial st =
        (map_sum id (\<lambda>v. (v, trial')) (parse_report (run (heap st' g) (files st'))), st')"
    by (cases "parse_report (run (heap st' g) (files st'))")
       (simp_all add: objective_call_def bind_def r g')
  show "files st' (tracking_config (heap st (self_opt self))) =
        Some (Yaml [] (config_written sm (heap st (self_opt self))))"
    by (simp add: st')
  show "tracking_config (heap st' g) = tracking_config (heap st g)"
    by (simp add: st' opts_after_fields)
  { assume "g \<noteq> self_opt self" then show "heap st' g = heap st g" by (simp add: st') }
  { assume "g = self_opt self" then show "heap st' g = opts_after sm (heap st g)" by (simp add: st') }
  { fix p assume "p \<noteq> tracking_config (heap st (self_opt self))"
    then show "files st' p = files st p" by (simp add: st') }
qed

lemmas example_defs =
  objective_call_def bind_def normal_form_defs example_run_def example_sampler_def
  example_opts_def fresh_trial_def strongsort_drawn_def

text \<open>
  Without a global and without the directory of the configuration file the error is
  that of \<open>open\<close>.  With a global at address 0 and \<open>self.opt\<close> at address 1, the
  tracker type of \<open>self.opt\<close> decides what the evaluation finds in the configuration
  file, and with it the outcome of the call.
\<close>

theorem call_counterexample:
  "glob_opt no_dir_state = None \<and>
   fst (objective_call example_run example_sampler (Objective 0) fresh_trial no_dir_state)
     = Inl FileNotFoundError \<and>
   glob_opt (two_objects_state ''strongsort'') = Some 0 \<and>
   glob_opt (two_objects_state ''ocsort'') = Some 0 \<and>
   self_opt (Objective 1) \<noteq> 0 \<and>
   heap (two_objects_state ''strongsort'') 0 = heap (two_objects_state ''ocsort'') 0 \<and>
   fst (objective_call example_run example_sampler (Objective 1) fresh_trial
          (two_objects_state ''strongsort''))
     = Inr ((55.2, 61, 58.7), \<lparr>number = 0, params = strongsort_drawn, trial_values = []\<rparr>) \<and>
   fst (objective_call example_run example_sampler (Objective 1) fresh_trial
          (two_objects_state ''ocsort''))
     = Inl (KeyError ''HOTA'')"
proof -
  have c: "parse_report crash_report = Inl (KeyError ''HOTA'')"
    by (simp add: crash_report_def parse_report_def slice_2_m1_def dict_get_def text_defs)
  show ?thesis
    by (simp add: example_defs no_dir_state_def initial_state_def two_objects_state_def
        example_report_scores c)
qed

text \<open>
  Without a global the call raises \<open>NameError\<close>.  With the global at address 0 and
  \<open>self.opt\<close> at address 1, the threshold drawn reaches \<open>self.opt\<close> and not the
  global; and when \<open>self.opt\<close> names another configuration file than the global, the
  evaluation finds no file at the path of the global.
\<close>

theorem call_uses_global_opt_witness:
  "glob_opt initial_state = None \<and>
   fst (objective_call example_run example_sampler (Objective 0) fresh_trial initial_state)
     = Inl (NameError ''opt'') \<and>
   glob_opt (two_objects_state ''strongsort'') = Some 0 \<and>
   0 \<noteq> self_opt (Objective 1) \<and>
   (\<exists>trial' st'.
      get_new_config example_sampler (Objective 1) fresh_trial (two_objects_state ''strongsort'')
        = (Inr trial', st') \<and>
      heap st' 0 = heap (two_objects_state ''strongsort'') 0 \<and>
      conf_thres (heap st' 1) = 0.5 \<and> conf_thres (heap st' 0) = 0.45) \<and>
   glob_opt other_path_state = Some 0 \<and>
   tracking_config (heap other_path_state 0) \<noteq> tracking_config (heap other_path_state 1) \<and>
   (\<exists>trial' st'.
      get_new_config example_sampler (Objective 1) fresh_trial other_path_state = (Inr trial', st') \<and>
      files st' (tracking_config (heap st' 0)) = None \<and>
      files st' (tracking_config (heap other_path_state 1)) =
        Some (Yaml [] (config_written example_sampler (heap other_path_state 1))))"
proof -
  have n: "glob_opt initial_state = None" by (simp add: initial_state_def)
  obtain t1 s1 where r1: "get_new_config example_sampler (Objective 0) fresh_trial initial_state = (Inr t1, s1)"
    by (simp add: normal_form_defs initial_state_def example_opts_def)
  have a: "fst (objective_call example_run example_sampler (Objective 0) fresh_trial initial_state)
     = Inl (NameError ''opt'')"
    using call_uses_global_opt[of initial_state example_run example_sampler "Objective 0" fresh_trial] n r1
    by simp
  have g: "glob_opt (two_objects_state ''strongsort'') = Some 0" by (simp add: two_objects_state_def)
  obtain t2 s2 where r2: "get_new_config example_sampler (Objective 1) fresh_trial
      (two_objects_state ''strongsort'') = (Inr t2, s2)"
    and c1: "conf_thres (heap s2 1) = 0.5"
    by (simp add: normal_form_defs two_objects_state_def example_opts_def example_sampler_def)
  have "heap s2 0 = heap (two_objects_state ''strongsort'') 0"
    using call_uses_global_opt[of "two_objects_state ''strongsort''" example_run example_sampler
        "Objective 1" fresh_trial] g r2
    by simp
  moreover from this have "conf_thres (heap s2 0) = 0.45"
    by (simp add: two_objects_state_def example_opts_def)
  ultimately have b: "\<exists>trial' st'.
      get_new_config example_sampler (Objective 1) fresh_trial (two_objects_state ''strongsort'')
        = (Inr trial', st') \<and>
      heap st' 0 = heap (two_objects_state ''strongsort'') 0 \<and>
      conf_thres (heap st' 1) = 0.5 \<and> conf_thres (heap st' 0) = 0.45"
    using r2 c1 by simp
  have g3: "glob_opt other_path_state = Some 0"
    and d3: "tracking_config (heap other_path_state 0) \<noteq> tracking_config (heap other_path_state 1)"
    and f3: "files other_path_state (tracking_config (heap other_path_state 0)) = None"
    by (simp_all add: other_path_state_def example_opts_def)
  obtain t3 s3 where r3: "get_new_config example_sampler (Objective 1) fresh_trial other_path_state
      = (Inr t3, s3)"
    by (simp add: normal_form_defs other_path_state_def example_opts_def)
  note t = call_uses_global_opt[of other_path_state example_run example_sampler "Objective 1"
      fresh_trial, THEN conjunct2, rule_format, OF conjI[OF g3 r3]]
  have w: "files s3 (tracking_config (heap other_path_state 1)) =
        Some (Yaml [] (config_written example_sampler (heap other_path_state 1)))"
    using t by simp
  have "tracking_config (heap s3 0) = tracking_config (heap other_path_state 0)"
    using t by simp
  moreover have "files s3 (tracking_config (heap other_path_state 0)) =
                 files other_path_state (tracking_config (heap other_path_state 0))"
    using t d3 by simp
  ultimately have "files s3 (tracking_config (heap s3 0)) = None" using f3 by simp
  with r3 w have c: "\<exists>trial' st'.
      get_new_config example_sampler (Objective 1) fresh_trial other_path_state = (Inr trial', st') \<and>
      files st' (tracking_config (heap st' 0)) = None \<and>
      files st' (tracking_config (heap other_path_state 1)) =
        Some (Yaml [] (config_written example_sampler (heap other_path_state 1)))"
    by blast
  show ?thesis using n a g b g3 d3 c by simp
qed

end
